theory Spec2Isabelle
  imports Complex_Main "HOL-Library.Sublist"
begin

section \<open>Messages\<close>

text \<open>
  A Python \<open>str\<close> is a sequence of Unicode code points and \<open>len\<close> counts code points,
  so a text is a list of code points here. \<open>ascii\<close> writes an ASCII literal as such a text.
\<close>

type_synonym str = "nat list"

definition ascii :: "string \<Rightarrow> str" where
  "ascii s = map of_char s"

text \<open>
  The message classes that \<open>app.py\<close> imports (line 4) and builds: \<open>HumanMessage\<close>
  (line 94), \<open>AIMessage\<close> (lines 77 and 109) and \<open>SystemMessage\<close> (line 50), each
  with its \<open>content\<close>. The token counter of line 57 guards every element with
  \<open>hasattr(msg, "content")\<close>; \<open>OtherObject\<close> stands for an element that has no such
  attribute and that is not a message, nor something \<open>langchain_core\<close> reads as one (a
  number, say). \<open>trim_messages\<close> refuses such an element with an error whose text names
  the element's class; \<open>OtherObject t\<close> is the element that is refused with the text \<open>t\<close>.
  Bare strings, pairs and dictionaries, which the package reads as messages, are not
  modelled.
\<close>

datatype message =
    HumanMessage str
  | AIMessage str
  | SystemMessage str
  | OtherObject str

text \<open>\<open>msg.content\<close>, with \<open>None\<close> where \<open>hasattr(msg, "content")\<close> is false.\<close>

fun content :: "message \<Rightarrow> str option" where
  "content (HumanMessage c) = Some c"
| "content (AIMessage c) = Some c"
| "content (SystemMessage c) = Some c"
| "content (OtherObject t) = None"

text \<open>\<open>isinstance(m, AIMessage)\<close> and \<open>isinstance(m, SystemMessage)\<close>.\<close>

fun isinstance_AIMessage :: "message \<Rightarrow> bool" where
  "isinstance_AIMessage (AIMessage c) = True"
| "isinstance_AIMessage m = False"

fun isinstance_SystemMessage :: "message \<Rightarrow> bool" where
  "isinstance_SystemMessage (SystemMessage c) = True"
| "isinstance_SystemMessage m = False"

text \<open>
  The chat page stores only \<open>HumanMessage\<close> (line 95) and \<open>AIMessage\<close> (line 109)
  objects in \<open>chat_history\<close>: a conversation is a list of such Turns.
\<close>

fun is_turn :: "message \<Rightarrow> bool" where
  "is_turn (HumanMessage c) = True"
| "is_turn (AIMessage c) = True"
| "is_turn m = False"

definition conversation :: "message list \<Rightarrow> bool" where
  "conversation h = list_all is_turn h"

section \<open>The prompt template and the trimmer (lines 49-59)\<close>

text \<open>The \<open>SystemMessage\<close> of \<open>prompt_template\<close> (line 50).\<close>

definition system_message :: message where
  "system_message = SystemMessage (ascii
     ''You are a helpful, friendly Health and Wellness assistant. Provide accurate and empathetic responses to user queries.'')"

text \<open>
  Line 57: \<open>lambda msgs: sum(len(msg.content) // 4 for msg in msgs if hasattr(msg, "content"))\<close>.
  \<open>//\<close> is floor division.
\<close>

definition token_counter :: "message list \<Rightarrow> nat" where
  "token_counter msgs = sum_list (map (\<lambda>c. length c div 4) (List.map_filter content msgs))"

text \<open>
  Modelled from the spec: the body of \<open>trim_messages\<close> is missing from the sources; the
  function is imported from the \<open>langchain_core\<close> package (line 4) and \<open>app.py\<close> only
  fixes its arguments (lines 54-59): \<open>strategy="last"\<close>, \<open>max_tokens\<close>, \<open>token_counter\<close>
  and \<open>include_system\<close>. The model is the "keep last" policy of section 4.2, step 2, as
  that package documents it for these arguments: the longest trailing window of the
  messages whose count under \<open>token_counter\<close> does not exceed \<open>max_tokens\<close>, where with
  \<open>include_system\<close> a \<open>SystemMessage\<close> at index 0 is kept in front and charged to the
  budget first. The function is given no system instruction of its own, so it can only
  keep one that its input carries. The spec's further rule, that one Turn is kept even
  when it does not fit, is not part of the package's policy and is not modelled: a window
  that no Turn fits into has no Turn. Before it trims, the package reads every element
  of its input as a message (\<open>convert_to_messages\<close>) and raises on the first element
  that is none.

  \<open>first_max_tokens\<close> is the longest prefix that fits, found from the whole list downwards.
\<close>

function first_max_tokens :: "nat \<Rightarrow> (message list \<Rightarrow> nat) \<Rightarrow> message list \<Rightarrow> message list" where
  "first_max_tokens max_tokens counter msgs =
     (if counter msgs \<le> max_tokens then msgs
      else if msgs = [] then []
      else first_max_tokens max_tokens counter (butlast msgs))"
  by pat_completeness auto
termination
  by (relation "measure (\<lambda>(max_tokens, counter, msgs). length msgs)") auto

declare first_max_tokens.simps [simp del]

definition last_max_tokens :: "nat \<Rightarrow> (message list \<Rightarrow> nat) \<Rightarrow> bool \<Rightarrow> message list \<Rightarrow> message list" where
  "last_max_tokens max_tokens counter include_system msgs =
     (case msgs of
        [] \<Rightarrow> []
      | m # rest \<Rightarrow>
          if include_system \<and> isinstance_SystemMessage m
          then m # rev (first_max_tokens (max_tokens - counter [m]) counter (rev rest))
          else rev (first_max_tokens max_tokens counter (rev msgs)))"

text \<open>
  Python exceptions are values: \<open>Exception e\<close> carries \<open>str(e)\<close>, the text that line 77
  formats into the error Turn.
\<close>

datatype exn = Exception str

fun convert_to_messages :: "message list \<Rightarrow> exn + message list" where
  "convert_to_messages [] = Inr []"
| "convert_to_messages (OtherObject t # msgs) = Inl (Exception t)"
| "convert_to_messages (m # msgs) =
     (case convert_to_messages msgs of
        Inl e \<Rightarrow> Inl e
      | Inr converted \<Rightarrow> Inr (m # converted))"

definition trim_messages ::
  "nat \<Rightarrow> (message list \<Rightarrow> nat) \<Rightarrow> bool \<Rightarrow> message list \<Rightarrow> exn + message list" where
  "trim_messages max_tokens counter include_system msgs =
     (case convert_to_messages msgs of
        Inl e \<Rightarrow> Inl e
      | Inr converted \<Rightarrow> Inr (last_max_tokens max_tokens counter include_system converted))"

text \<open>Lines 54-59: \<open>trimmer.invoke\<close>, the policy at the arguments the source gives it.\<close>

definition trimmer :: "message list \<Rightarrow> exn + message list" where
  "trimmer msgs = trim_messages 200 token_counter True msgs"

section \<open>The graph node \<open>call_model\<close> (lines 62-77)\<close>

record MessageState =
  messages :: "message list"

text \<open>The marker that line 77 puts in front of \<open>str(e)\<close>: a cross mark (U+274C), then \<open>" Error: "\<close>.\<close>

definition error_marker :: str where
  "error_marker = 10060 # ascii '' Error: ''"

text \<open>Lines 69-71: the local \<open>messages\<close>, without a trailing \<open>AIMessage\<close>.\<close>

definition local_messages :: "MessageState \<Rightarrow> message list" where
  "local_messages state =
     (if messages state \<noteq> [] \<and> isinstance_AIMessage (last (messages state))
      then butlast (messages state)
      else messages state)"

text \<open>Lines 72-73: \<open>prompt_messages\<close>, the argument of \<open>model.invoke\<close>.\<close>

definition prompt_messages :: "(message list \<Rightarrow> exn + message list) \<Rightarrow> MessageState \<Rightarrow> exn + message list" where
  "prompt_messages trimmer_invoke state = trimmer_invoke (local_messages state)"

text \<open>Line 77: the \<open>except\<close> branch, which appends to \<open>state["messages"]\<close>.\<close>

definition error_state :: "MessageState \<Rightarrow> exn \<Rightarrow> MessageState" where
  "error_state state e =
     (case e of Exception text \<Rightarrow>
        \<lparr>messages = messages state @ [AIMessage (error_marker @ text)]\<rparr>)"

text \<open>
  \<open>call_model\<close>. The globals \<open>trimmer\<close> and \<open>model\<close> are parameters: \<open>model.invoke\<close> is
  the remote chat model, which returns a completion or raises. Everything runs inside
  the \<open>try\<close>, so an exception of either call ends in the \<open>except\<close> branch.
\<close>

definition call_model ::
  "(message list \<Rightarrow> exn + message list) \<Rightarrow> (message list \<Rightarrow> exn + message) \<Rightarrow> MessageState \<Rightarrow> MessageState" where
  "call_model trimmer_invoke model_invoke state =
     (case prompt_messages trimmer_invoke state of
        Inl e \<Rightarrow> error_state state e
      | Inr prompt \<Rightarrow>
          (case model_invoke prompt of
             Inl e \<Rightarrow> error_state state e
           | Inr completion \<Rightarrow> \<lparr>messages = local_messages state @ [completion]\<rparr>))"

section \<open>The streaming loop of the chat page (lines 101-109)\<close>

text \<open>
  Lines 101-107: \<open>full_response\<close> starts empty and grows by the content of every
  streamed chunk that is an \<open>AIMessage\<close>; other chunks are passed over.
\<close>

fun stream_loop :: "str \<Rightarrow> message list \<Rightarrow> str" where
  "stream_loop full_response [] = full_response"
| "stream_loop full_response (AIMessage c # chunks) = stream_loop (full_response @ c) chunks"
| "stream_loop full_response (chunk # chunks) = stream_loop full_response chunks"

text \<open>What one chunk adds to \<open>full_response\<close>: a chunk of another class adds nothing.\<close>

fun fragment_of :: "message \<Rightarrow> str" where
  "fragment_of (AIMessage c) = c"
| "fragment_of m = []"

text \<open>Line 109: the finished text is appended to \<open>chat_history\<close> as one \<open>AIMessage\<close>.\<close>

definition finalize :: "message list \<Rightarrow> message list \<Rightarrow> message list" where
  "finalize chat_history chunks = chat_history @ [AIMessage (stream_loop [] chunks)]"

section \<open>Facts about the token counter\<close>

lemma token_counter_Nil: "token_counter [] = 0"
  by (simp add: token_counter_def)

lemma token_counter_Cons:
  "token_counter (m # ms) = token_counter [m] + token_counter ms"
  by (cases m) (simp_all add: token_counter_def)

lemma token_counter_append:
  "token_counter (xs @ ys) = token_counter xs + token_counter ys"
proof (induction xs)
  case Nil
  show ?case by (simp add: token_counter_Nil)
next
  case (Cons x xs)
  have "token_counter ((x # xs) @ ys) = token_counter [x] + token_counter (xs @ ys)"
    using token_counter_Cons [of x "xs @ ys"] by simp
  also have "\<dots> = token_counter [x] + token_counter xs + token_counter ys"
    using Cons.IH by simp
  also have "\<dots> = token_counter (x # xs) + token_counter ys"
    using token_counter_Cons [of x xs] by simp
  finally show ?case .
qed

lemma token_counter_rev: "token_counter (rev ms) = token_counter ms"
proof (induction ms)
  case Nil
  show ?case by simp
next
  case (Cons m ms)
  have "token_counter (rev (m # ms)) = token_counter (rev ms) + token_counter [m]"
    by (simp add: token_counter_append)
  also have "\<dots> = token_counter [m] + token_counter ms"
    using Cons.IH by simp
  also have "\<dots> = token_counter (m # ms)"
    using token_counter_Cons [of m ms] by simp
  finally show ?case .
qed

lemma token_counter_single:
  "token_counter [m] = (case content m of None \<Rightarrow> 0 | Some c \<Rightarrow> length c div 4)"
  by (cases m) (simp_all add: token_counter_def)


lemma token_counter_floor:
  "int (length c div 4) = \<lfloor>real (length c) / 4\<rfloor>"
  using floor_divide_of_nat_eq [where ?'a = real, of "length c" 4] by simp

section \<open>Facts about \<open>call_model\<close>\<close>

lemma local_messages_snoc_AI:
  "local_messages \<lparr>messages = h @ [AIMessage c]\<rparr> = h"
  by (simp add: local_messages_def)

lemma local_messages_keep:
  "ms = [] \<or> \<not> isinstance_AIMessage (last ms) \<Longrightarrow> local_messages \<lparr>messages = ms\<rparr> = ms"
  by (auto simp: local_messages_def)

lemma call_model_model_raises:
  "prompt_messages tr st = Inr p \<Longrightarrow> md p = Inl (Exception e) \<Longrightarrow>
   call_model tr md st = \<lparr>messages = messages st @ [AIMessage (error_marker @ e)]\<rparr>"
  by (simp add: call_model_def error_state_def)

lemma call_model_trimmer_raises:
  "prompt_messages tr st = Inl (Exception e) \<Longrightarrow>
   call_model tr md st = \<lparr>messages = messages st @ [AIMessage (error_marker @ e)]\<rparr>"
  by (simp add: call_model_def error_state_def)

lemma call_model_returns:
  "prompt_messages tr st = Inr p \<Longrightarrow> md p = Inr completion \<Longrightarrow>
   call_model tr md st = \<lparr>messages = local_messages st @ [completion]\<rparr>"
  by (simp add: call_model_def)

section \<open>Facts about the streaming loop\<close>

lemma stream_loop_fragments:
  "stream_loop acc (map AIMessage fragments) = acc @ concat fragments"
  by (induction fragments arbitrary: acc) simp_all

lemma stream_loop_chunks:
  "stream_loop acc chunks = acc @ concat (map fragment_of chunks)"
proof (induction chunks arbitrary: acc)
  case Nil
  show ?case by simp
next
  case (Cons chunk chunks)
  show ?case by (cases chunk) (simp_all add: Cons.IH)
qed

section \<open>Facts about the trimming policy\<close>

lemma first_max_tokens_fits:
  "counter msgs \<le> max_tokens \<Longrightarrow> first_max_tokens max_tokens counter msgs = msgs"
  by (simp add: first_max_tokens.simps)

lemma first_max_tokens_Nil: "first_max_tokens max_tokens counter [] = []"
  by (simp add: first_max_tokens.simps)

lemma first_max_tokens_step:
  "\<not> counter msgs \<le> max_tokens \<Longrightarrow> msgs \<noteq> [] \<Longrightarrow>
   first_max_tokens max_tokens counter msgs = first_max_tokens max_tokens counter (butlast msgs)"
  by (subst first_max_tokens.simps) simp

lemma first_max_tokens_prefix:
  "prefix (first_max_tokens max_tokens counter msgs) msgs"
proof (induction max_tokens counter msgs rule: first_max_tokens.induct)
  case (1 max_tokens counter msgs)
  show ?case
  proof (cases "counter msgs \<le> max_tokens")
    case True
    then show ?thesis by (simp add: first_max_tokens_fits)
  next
    case False
    show ?thesis
    proof (cases "msgs = []")
      case True
      then show ?thesis by (simp add: first_max_tokens_Nil)
    next
      case nonempty: False
      have step: "first_max_tokens max_tokens counter msgs
                  = first_max_tokens max_tokens counter (butlast msgs)"
        using False nonempty by (rule first_max_tokens_step)
      have "prefix (first_max_tokens max_tokens counter (butlast msgs)) (butlast msgs)"
        using "1.IH" False nonempty by simp
      moreover have "prefix (butlast msgs) msgs"
        by (simp add: prefixeq_butlast)
      ultimately have "prefix (first_max_tokens max_tokens counter (butlast msgs)) msgs"
        by (rule prefix_order.trans)
      then show ?thesis unfolding step .
    qed
  qed
qed

lemma first_max_tokens_bound:
  "counter (first_max_tokens max_tokens counter msgs) \<le> max_tokens
   \<or> first_max_tokens max_tokens counter msgs = []"
proof (induction max_tokens counter msgs rule: first_max_tokens.induct)
  case (1 max_tokens counter msgs)
  show ?case
  proof (cases "counter msgs \<le> max_tokens")
    case True
    then show ?thesis by (simp add: first_max_tokens_fits)
  next
    case False
    show ?thesis
    proof (cases "msgs = []")
      case True
      then show ?thesis by (simp add: first_max_tokens_Nil)
    next
      case nonempty: False
      have step: "first_max_tokens max_tokens counter msgs
                  = first_max_tokens max_tokens counter (butlast msgs)"
        using False nonempty by (rule first_max_tokens_step)
      have "counter (first_max_tokens max_tokens counter (butlast msgs)) \<le> max_tokens
            \<or> first_max_tokens max_tokens counter (butlast msgs) = []"
        using "1.IH" False nonempty by simp
      then show ?thesis unfolding step .
    qed
  qed
qed

lemma first_max_tokens_cost:
  "token_counter (first_max_tokens max_tokens token_counter msgs) \<le> max_tokens"
  using first_max_tokens_bound [of token_counter max_tokens msgs]
  by (auto simp: token_counter_Nil)

text \<open>Every prefix that fits is a prefix of the chosen one.\<close>

lemma first_max_tokens_longest:
  "prefix p msgs \<Longrightarrow> counter p \<le> max_tokens \<Longrightarrow>
   prefix p (first_max_tokens max_tokens counter msgs)"
proof (induction max_tokens counter msgs rule: first_max_tokens.induct)
  case (1 max_tokens counter msgs)
  show ?case
  proof (cases "counter msgs \<le> max_tokens")
    case True
    then show ?thesis using "1.prems" by (simp add: first_max_tokens_fits)
  next
    case False
    show ?thesis
    proof (cases "msgs = []")
      case True
      then show ?thesis using "1.prems" by (simp add: first_max_tokens_Nil)
    next
      case nonempty: False
      have step: "first_max_tokens max_tokens counter msgs
                  = first_max_tokens max_tokens counter (butlast msgs)"
        using False nonempty by (rule first_max_tokens_step)
      have "p \<noteq> msgs" using False "1.prems"(2) by auto
      moreover have "msgs = butlast msgs @ [last msgs]"
        using nonempty by simp
      ultimately have "prefix p (butlast msgs)"
        using "1.prems"(1) prefix_snoc [of p "butlast msgs" "last msgs"] by auto
      then have "prefix p (first_max_tokens max_tokens counter (butlast msgs))"
        using "1.IH" False nonempty "1.prems"(2) by simp
      then show ?thesis unfolding step .
    qed
  qed
qed

lemma first_max_tokens_idem:
  "first_max_tokens max_tokens counter (first_max_tokens max_tokens counter msgs)
   = first_max_tokens max_tokens counter msgs"
  using first_max_tokens_bound [of counter max_tokens msgs]
  by (auto simp: first_max_tokens_fits first_max_tokens_Nil)


lemma last_max_tokens_fits:
  assumes "token_counter msgs \<le> max_tokens"
  shows "last_max_tokens max_tokens token_counter include_system msgs = msgs"
proof (cases msgs)
  case Nil
  then show ?thesis by (simp add: last_max_tokens_def)
next
  case (Cons m rest)
  have whole: "first_max_tokens max_tokens token_counter (rev msgs) = rev msgs"
    using assms by (simp add: first_max_tokens_fits token_counter_rev)
  have "token_counter [m] + token_counter rest \<le> max_tokens"
    using assms Cons token_counter_Cons [of m rest] by simp
  then have "token_counter (rev rest) \<le> max_tokens - token_counter [m]"
    by (simp add: token_counter_rev)
  then have tail: "first_max_tokens (max_tokens - token_counter [m]) token_counter (rev rest) = rev rest"
    by (rule first_max_tokens_fits)
  show ?thesis
  proof (cases "include_system \<and> isinstance_SystemMessage m")
    case True
    then show ?thesis
      using Cons tail by (simp add: last_max_tokens_def)
  next
    case False
    have "last_max_tokens max_tokens token_counter include_system msgs
          = rev (first_max_tokens max_tokens token_counter (rev msgs))"
      using Cons False by (auto simp: last_max_tokens_def)
    then show ?thesis using whole by simp
  qed
qed

text \<open>On a conversation no \<open>SystemMessage\<close> leads, and the window is a plain trailing one.\<close>

lemma last_max_tokens_conversation:
  assumes "conversation h"
  shows "last_max_tokens max_tokens counter include_system h
         = rev (first_max_tokens max_tokens counter (rev h))"
proof (cases h)
  case Nil
  then show ?thesis
    by (simp add: last_max_tokens_def first_max_tokens_Nil)
next
  case (Cons m rest)
  then have "is_turn m" using assms by (simp add: conversation_def)
  then have "\<not> isinstance_SystemMessage m" by (cases m) simp_all
  then show ?thesis using Cons by (simp add: last_max_tokens_def)
qed

lemma last_max_tokens_subset:
  "set (last_max_tokens max_tokens counter include_system msgs) \<subseteq> set msgs"
proof (cases msgs)
  case Nil
  then show ?thesis by (simp add: last_max_tokens_def)
next
  case (Cons m rest)
  have a: "set (first_max_tokens (max_tokens - counter [m]) counter (rev rest)) \<subseteq> set rest"
    using set_mono_prefix [OF first_max_tokens_prefix [of "max_tokens - counter [m]" counter "rev rest"]]
    by simp
  have b: "set (first_max_tokens max_tokens counter (rev msgs)) \<subseteq> set msgs"
    using set_mono_prefix [OF first_max_tokens_prefix [of max_tokens counter "rev msgs"]]
    by simp
  show ?thesis
  proof (cases "include_system \<and> isinstance_SystemMessage m")
    case True
    then show ?thesis using Cons a by (auto simp: last_max_tokens_def)
  next
    case False
    then have "last_max_tokens max_tokens counter include_system msgs
               = rev (first_max_tokens max_tokens counter (rev msgs))"
      using Cons by (auto simp: last_max_tokens_def)
    then show ?thesis using b by simp
  qed
qed

lemma last_max_tokens_idem:
  "last_max_tokens max_tokens token_counter include_system
     (last_max_tokens max_tokens token_counter include_system msgs)
   = last_max_tokens max_tokens token_counter include_system msgs"
proof (cases msgs)
  case Nil
  then show ?thesis by (simp add: last_max_tokens_def)
next
  case (Cons m rest)
  show ?thesis
  proof (cases "include_system \<and> isinstance_SystemMessage m")
    case True
    let ?b = "max_tokens - token_counter [m]"
    have first: "last_max_tokens max_tokens token_counter include_system msgs
          = m # rev (first_max_tokens ?b token_counter (rev rest))"
      using Cons True by (simp add: last_max_tokens_def)
    have "last_max_tokens max_tokens token_counter include_system
            (m # rev (first_max_tokens ?b token_counter (rev rest)))
          = m # rev (first_max_tokens ?b token_counter
                       (first_max_tokens ?b token_counter (rev rest)))"
      using True by (simp add: last_max_tokens_def)
    then show ?thesis by (simp add: first first_max_tokens_idem)
  next
    case False
    have first: "last_max_tokens max_tokens token_counter include_system msgs
          = rev (first_max_tokens max_tokens token_counter (rev msgs))"
      using Cons False by (auto simp: last_max_tokens_def)
    have "token_counter (rev (first_max_tokens max_tokens token_counter (rev msgs))) \<le> max_tokens"
      using first_max_tokens_cost [of max_tokens "rev msgs"] by (simp add: token_counter_rev)
    then show ?thesis
      unfolding first by (rule last_max_tokens_fits)
  qed
qed

section \<open>Facts about reading the input as messages\<close>

lemma convert_to_messages_messages:
  "\<forall>m\<in>set msgs. content m \<noteq> None \<Longrightarrow> convert_to_messages msgs = Inr msgs"
proof (induction msgs)
  case Nil
  show ?case by simp
next
  case (Cons m msgs)
  then show ?case by (cases m) simp_all
qed

lemma convert_to_messages_Inr:
  "convert_to_messages msgs = Inr converted \<Longrightarrow>
   converted = msgs \<and> (\<forall>m\<in>set msgs. content m \<noteq> None)"
proof (induction msgs arbitrary: converted)
  case Nil
  then show ?case by simp
next
  case (Cons m msgs)
  then show ?case by (cases m) (auto split: sum.splits)
qed

lemma trim_messages_messages:
  "\<forall>m\<in>set msgs. content m \<noteq> None \<Longrightarrow>
   trim_messages max_tokens counter include_system msgs
   = Inr (last_max_tokens max_tokens counter include_system msgs)"
  by (simp add: trim_messages_def convert_to_messages_messages)

lemma conversation_content: "conversation h \<Longrightarrow> \<forall>m\<in>set h. content m \<noteq> None"
proof
  fix m
  assume "conversation h" and "m \<in> set h"
  then have "is_turn m" by (simp add: conversation_def list_all_iff)
  then show "content m \<noteq> None" by (cases m) simp_all
qed

lemma trimmer_hi:
  "trimmer [HumanMessage (ascii ''hi'')] = Inr [HumanMessage (ascii ''hi'')]"
  by (simp add: trimmer_def trim_messages_def last_max_tokens_fits token_counter_def ascii_def)

section \<open>The cost of a Turn (claim C3)\<close>

text \<open>
  Claim C3 as the spec states it: the cost charged to a Turn is the length of its content
  divided by four, rounded up. The source divides with \<open>//\<close>, which rounds down: the
  two-character Turn \<open>"hi"\<close> is charged 0, and a quarter of its length rounded up is 1.
\<close>

theorem token_counter_not_ceiling:
  "token_counter [HumanMessage (ascii ''hi'')] = 0
   \<and> \<lceil>real (length (ascii ''hi'')) / 4\<rceil> = 1"
proof
  show "token_counter [HumanMessage (ascii ''hi'')] = 0"
    by (simp add: token_counter_def ascii_def)
  have "\<lceil>(1::real) / 2\<rceil> = 1"
    by (rule ceiling_unique) simp_all
  then show "\<lceil>real (length (ascii ''hi'')) / 4\<rceil> = 1"
    by (simp add: ascii_def)
qed

text \<open>
  Claim C3, amended: for every Turn, the cost charged to it by the token counter is the
  length of its content divided by four, rounded down; the cost of a list of Turns is
  the sum of the costs of its Turns.
\<close>

theorem token_counter_floor_quarter:
  "token_counter [HumanMessage c] = length c div 4
   \<and> token_counter [AIMessage c] = length c div 4
   \<and> token_counter [SystemMessage c] = length c div 4
   \<and> int (length c div 4) = \<lfloor>real (length c) / 4\<rfloor>
   \<and> token_counter msgs = sum_list (map (\<lambda>m. token_counter [m]) msgs)"
proof -
  have "token_counter msgs = sum_list (map (\<lambda>m. token_counter [m]) msgs)"
  proof (induction msgs)
    case Nil
    show ?case by (simp add: token_counter_Nil)
  next
    case (Cons m msgs)
    then show ?case using token_counter_Cons [of m msgs] by simp
  qed
  then show ?thesis
    by (simp add: token_counter_single token_counter_floor)
qed

section \<open>Placeholder removal (claim C4)\<close>

text \<open>
  Claim C4: for every history whose last Turn is an Assistant Turn, \<open>call_model\<close> discards
  exactly that one trailing Turn before trimming, so the trimmer is invoked on the
  history without it; for every history whose last Turn is not an Assistant Turn, the
  trimmer is invoked on the whole history.
\<close>

theorem placeholder_removal:
  "local_messages \<lparr>messages = h @ [AIMessage c]\<rparr> = h
   \<and> prompt_messages tr \<lparr>messages = h @ [AIMessage c]\<rparr> = tr h
   \<and> (ms = [] \<or> \<not> isinstance_AIMessage (last ms) \<longrightarrow>
        local_messages \<lparr>messages = ms\<rparr> = ms
        \<and> prompt_messages tr \<lparr>messages = ms\<rparr> = tr ms)"
  using local_messages_keep [of ms]
  by (simp add: prompt_messages_def local_messages_snoc_AI)

theorem placeholder_removal_witness:
  "([HumanMessage (ascii ''hi'')] = []
      \<or> \<not> isinstance_AIMessage (last [HumanMessage (ascii ''hi'')]))
   \<and> local_messages \<lparr>messages = [HumanMessage (ascii ''hi'')]\<rparr> = [HumanMessage (ascii ''hi'')]
   \<and> local_messages \<lparr>messages = [HumanMessage (ascii ''hi''), AIMessage (ascii ''stale'')]\<rparr>
       = [HumanMessage (ascii ''hi'')]"
  using placeholder_removal [of "[HumanMessage (ascii ''hi'')]" "ascii ''stale''" trimmer
      "[HumanMessage (ascii ''hi'')]"]
  by simp

section \<open>Failure handling (claims C5 and C9)\<close>

text \<open>
  Claim C5: for every history, if the remote invocation raises an exception, \<open>call_model\<close>
  still returns a state: the input messages followed by one Assistant Turn, whose content
  is the fixed marker of line 77 (the cross mark U+274C, then \<open>" Error: "\<close>, the code
  points 10060, 32, 69, 114, 114, 111, 114, 58, 32) followed by the text of the exception.
\<close>

theorem fail_soft:
  assumes "prompt_messages tr st = Inr p" and "md p = Inl (Exception e)"
  shows "call_model tr md st
         = \<lparr>messages = messages st
              @ [AIMessage ([10060, 32, 69, 114, 114, 111, 114, 58, 32] @ e)]\<rparr>"
  using call_model_model_raises [of tr st p md e] assms
  by (simp add: error_marker_def ascii_def)

theorem fail_soft_witness:
  "prompt_messages trimmer \<lparr>messages = [HumanMessage (ascii ''hi'')]\<rparr>
     = Inr [HumanMessage (ascii ''hi'')]
   \<and> call_model trimmer (\<lambda>p. Inl (Exception (ascii ''timeout'')))
        \<lparr>messages = [HumanMessage (ascii ''hi'')]\<rparr>
     = \<lparr>messages = [HumanMessage (ascii ''hi''),
          AIMessage ([10060, 32, 69, 114, 114, 111, 114, 58, 32] @ ascii ''timeout'')]\<rparr>"
proof -
  have p: "prompt_messages trimmer \<lparr>messages = [HumanMessage (ascii ''hi'')]\<rparr>
           = Inr [HumanMessage (ascii ''hi'')]"
    by (simp add: prompt_messages_def local_messages_def trimmer_hi)
  show ?thesis
    using p fail_soft [of trimmer "\<lparr>messages = [HumanMessage (ascii ''hi'')]\<rparr>"
        "[HumanMessage (ascii ''hi'')]" "\<lambda>p. Inl (Exception (ascii ''timeout''))" "ascii ''timeout''"]
    by simp
qed

text \<open>
  Claim C9: on the error path the error Turn is appended to the input state's messages,
  to which placeholder removal has not been applied: for every history whose last Turn is
  an Assistant Turn, if the remote invocation raises, the returned messages are the whole
  input, the trailing Assistant Turn included, followed by the error Turn.
\<close>

theorem error_path_keeps_placeholder:
  assumes "tr h = Inr p" and "md p = Inl (Exception e)"
  shows "call_model tr md \<lparr>messages = h @ [AIMessage c]\<rparr>
         = \<lparr>messages = h @ [AIMessage c, AIMessage (error_marker @ e)]\<rparr>"
proof -
  have "prompt_messages tr \<lparr>messages = h @ [AIMessage c]\<rparr> = Inr p"
    using assms(1) by (simp add: prompt_messages_def local_messages_snoc_AI)
  then show ?thesis
    using call_model_model_raises [of tr "\<lparr>messages = h @ [AIMessage c]\<rparr>" p md e] assms(2)
    by simp
qed

theorem error_path_keeps_placeholder_witness:
  "(\<lambda>ms. Inr ms :: exn + message list) [HumanMessage (ascii ''hi'')]
     = Inr [HumanMessage (ascii ''hi'')]
   \<and> call_model (\<lambda>ms. Inr ms) (\<lambda>p. Inl (Exception (ascii ''timeout'')))
        \<lparr>messages = [HumanMessage (ascii ''hi''), AIMessage (ascii ''stale'')]\<rparr>
     = \<lparr>messages = [HumanMessage (ascii ''hi''), AIMessage (ascii ''stale''),
                     AIMessage (error_marker @ ascii ''timeout'')]\<rparr>"
  using error_path_keeps_placeholder [of "\<lambda>ms. Inr ms" "[HumanMessage (ascii ''hi'')]"
      "[HumanMessage (ascii ''hi'')]" "\<lambda>p. Inl (Exception (ascii ''timeout''))"
      "ascii ''timeout''" "ascii ''stale''"]
  by simp

section \<open>The stored history (claim C6)\<close>

text \<open>
  Claim C6: for every history that does not end in an Assistant Turn, a successful
  invocation returns the input history, every Turn unchanged and in order, followed by
  exactly one new Assistant Turn, whatever window the trimmer has selected: trimming
  changes only what the model is given.
\<close>

theorem history_preserved:
  assumes "ms = [] \<or> \<not> isinstance_AIMessage (last ms)"
    and "tr ms = Inr window" and "md window = Inr (AIMessage reply)"
  shows "call_model tr md \<lparr>messages = ms\<rparr> = \<lparr>messages = ms @ [AIMessage reply]\<rparr>"
proof -
  have keep: "local_messages \<lparr>messages = ms\<rparr> = ms"
    using assms(1) by (rule local_messages_keep)
  then have "prompt_messages tr \<lparr>messages = ms\<rparr> = Inr window"
    using assms(2) by (simp add: prompt_messages_def)
  then show ?thesis
    using call_model_returns [of tr "\<lparr>messages = ms\<rparr>" window md "AIMessage reply"] assms(3) keep
    by simp
qed

theorem history_preserved_witness:
  "([HumanMessage (replicate 900 97), HumanMessage (ascii ''hi'')] = []
      \<or> \<not> isinstance_AIMessage (last [HumanMessage (replicate 900 97), HumanMessage (ascii ''hi'')]))
   \<and> (\<lambda>ms. Inr (tl ms) :: exn + message list)
        [HumanMessage (replicate 900 97), HumanMessage (ascii ''hi'')]
      = Inr [HumanMessage (ascii ''hi'')]
   \<and> call_model (\<lambda>ms. Inr (tl ms)) (\<lambda>p. Inr (AIMessage (ascii ''Hello!'')))
        \<lparr>messages = [HumanMessage (replicate 900 97), HumanMessage (ascii ''hi'')]\<rparr>
      = \<lparr>messages = [HumanMessage (replicate 900 97), HumanMessage (ascii ''hi''),
                      AIMessage (ascii ''Hello!'')]\<rparr>"
  using history_preserved [of "[HumanMessage (replicate 900 97), HumanMessage (ascii ''hi'')]"
      "\<lambda>ms. Inr (tl ms)" "[HumanMessage (ascii ''hi'')]"
      "\<lambda>p. Inr (AIMessage (ascii ''Hello!''))" "ascii ''Hello!''"]
  by simp

section \<open>Streaming assembly (claim C7)\<close>

text \<open>
  For every list of chunks the loop collects the content of all the \<open>AIMessage\<close> chunks
  in order (\<open>stream_loop_chunks\<close>). When the stream holds the fragments of the reply and
  nothing else, the stored Turn is their concatenation.
\<close>

lemma finalize_chunks:
  "finalize chat_history chunks = chat_history @ [AIMessage (concat (map fragment_of chunks))]"
  by (simp add: finalize_def stream_loop_chunks)

lemma finalize_fragments:
  "finalize chat_history (map AIMessage fragments)
   = chat_history @ [AIMessage (concat fragments)]"
  by (simp add: finalize_def stream_loop_fragments)

text \<open>
  Claim C7 says that the content of the Assistant Turn appended to the chat history is
  the concatenation of the fragments that the remote model yields, none lost or
  duplicated. Line 104 iterates the stream of the graph, not of the model, drops the
  metadata of every item (\<open>for chunk, _ in\<close>), and line 105 admits every chunk that is an
  \<open>AIMessage\<close>. On the second turn of a chat the stream carries, after the fragments
  \<open>"Su"\<close> and \<open>"re"\<close> of the new reply, the messages of the state: the earlier reply
  \<open>"Hello!"\<close> and the question \<open>"more"\<close>. The loop takes the earlier reply for a fragment:
  the stored Turn is \<open>"SureHello!"\<close>, and the concatenation of the fragments is
  \<open>"Sure"\<close>.
\<close>

theorem stream_takes_earlier_reply:
  "finalize
     [HumanMessage (ascii ''hi''), AIMessage (ascii ''Hello!''), HumanMessage (ascii ''more'')]
     [AIMessage (ascii ''Su''), AIMessage (ascii ''re''),
      AIMessage (ascii ''Hello!''), HumanMessage (ascii ''more'')]
   = [HumanMessage (ascii ''hi''), AIMessage (ascii ''Hello!''), HumanMessage (ascii ''more''),
      AIMessage (ascii ''SureHello!'')]
   \<and> concat [ascii ''Su'', ascii ''re''] = ascii ''Sure''
   \<and> ascii ''SureHello!'' \<noteq> ascii ''Sure''"
  by (simp add: finalize_def ascii_def)

section \<open>Costs and windows of some histories\<close>

lemma token_counter_zero_cost:
  "\<forall>m\<in>set h. (case content m of None \<Rightarrow> True | Some c \<Rightarrow> length c < 4) \<Longrightarrow> token_counter h = 0"
proof (induction h)
  case Nil
  show ?case by (simp add: token_counter_Nil)
next
  case (Cons m h)
  have "token_counter [m] = 0"
    using Cons.prems by (cases "content m") (simp_all add: token_counter_single)
  moreover have "token_counter h = 0" using Cons by simp
  ultimately show ?case using token_counter_Cons [of m h] by simp
qed

lemma big_turn_cost: "token_counter [HumanMessage (replicate 804 97)] = 201"
  by (simp add: token_counter_def)

lemma system_message_cost: "token_counter [system_message] = 29"
  by (simp add: token_counter_def system_message_def ascii_def)

lemma trim_big_turn:
  "trim_messages 200 token_counter True [HumanMessage (replicate 804 97)] = Inr []"
proof -
  have "\<not> token_counter [HumanMessage (replicate 804 97)] \<le> 200"
    by (simp add: big_turn_cost)
  then have "first_max_tokens 200 token_counter [HumanMessage (replicate 804 97)]
             = first_max_tokens 200 token_counter []"
    using first_max_tokens_step [of token_counter "[HumanMessage (replicate 804 97)]" 200] by simp
  then show ?thesis
    by (simp add: trim_messages_def last_max_tokens_def first_max_tokens_Nil)
qed

text \<open>
  An input that the trimmer refuses ends in the \<open>except\<close> branch of \<open>call_model\<close>, before
  the model is invoked.
\<close>

lemma call_model_refused_input:
  "call_model trimmer md \<lparr>messages = [HumanMessage c, OtherObject t]\<rparr>
   = \<lparr>messages = [HumanMessage c, OtherObject t, AIMessage (error_marker @ t)]\<rparr>"
  by (simp add: call_model_def prompt_messages_def local_messages_def trimmer_def
      trim_messages_def error_state_def)

lemma fitting_turn_cost: "token_counter [HumanMessage (replicate 760 97)] = 190"
  by (simp add: token_counter_def)

text \<open>
  A Turn of 760 characters fits the budget and is the whole window; together with the
  system instruction of line 50 it would cost 219.
\<close>

lemma fitting_turn_window:
  "trim_messages 200 token_counter True [HumanMessage (replicate 760 97)]
     = Inr [HumanMessage (replicate 760 97)]
   \<and> token_counter [system_message, HumanMessage (replicate 760 97)] = 219"
  using token_counter_Cons [of system_message "[HumanMessage (replicate 760 97)]"]
  by (simp add: trim_messages_def last_max_tokens_fits fitting_turn_cost system_message_cost)

section \<open>The prompt given to the model (claim C2)\<close>

text \<open>
  Claim C2 says that the prompt passed to the remote model always begins with the fixed
  system instruction. \<open>call_model\<close> passes the trimmer's window on as it is (line 73),
  \<open>prompt_template\<close> is never applied, and the trimmer is built without the
  instruction: on the history \<open>[HumanMessage("hi")]\<close> the model is given
  \<open>[HumanMessage("hi")]\<close>, in which the system instruction does not occur.
\<close>

theorem prompt_without_system_message:
  "prompt_messages trimmer \<lparr>messages = [HumanMessage (ascii ''hi'')]\<rparr>
     = Inr [HumanMessage (ascii ''hi'')]
   \<and> hd [HumanMessage (ascii ''hi'')] \<noteq> system_message
   \<and> system_message \<notin> set [HumanMessage (ascii ''hi'')]"
  by (simp add: prompt_messages_def local_messages_def trimmer_hi system_message_def)

section \<open>The trimmed window (claims C1, C8 and C10)\<close>

text \<open>
  Claim C1 as the spec states it: the window, the system instruction included, costs at
  most 200, except when the system instruction and the most recent Turn together exceed
  the budget, where the window is the system instruction and that Turn. On a history of
  one Turn of 804 characters the exception applies (the two cost 230), and the window is
  empty.
\<close>

theorem window_cost_counterexample:
  "token_counter [system_message, HumanMessage (replicate 804 97)] > 200
   \<and> trimmer [HumanMessage (replicate 804 97)] = Inr []
   \<and> trimmer [HumanMessage (replicate 804 97)]
       \<noteq> Inr [system_message, HumanMessage (replicate 804 97)]"
proof -
  have "token_counter [system_message, HumanMessage (replicate 804 97)] = 230"
    using token_counter_Cons [of system_message "[HumanMessage (replicate 804 97)]"]
    by (simp add: big_turn_cost system_message_cost)
  then show ?thesis by (simp add: trimmer_def trim_big_turn)
qed

text \<open>
  Claim C1, amended: for every history of Human and Assistant Turns, the trimming policy
  selects a window, which is the longest trailing segment of the history whose total
  cost is at most 200; when the most recent Turn alone costs more than 200, no Turn fits
  and the window is empty.
\<close>

theorem trimmed_window:
  assumes "conversation h"
  shows "\<exists>window. trimmer h = Inr window
         \<and> suffix window h
         \<and> token_counter window \<le> 200
         \<and> (\<forall>v. suffix v h \<and> token_counter v \<le> 200 \<longrightarrow> suffix v window)
         \<and> (h \<noteq> [] \<and> token_counter [last h] > 200 \<longrightarrow> window = [])"
proof -
  let ?w = "last_max_tokens 200 token_counter True h"
  have tr: "trimmer h = Inr ?w"
    using conversation_content [OF assms] by (simp add: trimmer_def trim_messages_messages)
  have w: "?w = rev (first_max_tokens 200 token_counter (rev h))"
    using assms by (rule last_max_tokens_conversation)
  have suf: "suffix ?w h"
    using first_max_tokens_prefix [of 200 token_counter "rev h"]
    by (simp add: w suffix_to_prefix)
  have cost: "token_counter ?w \<le> 200"
    using first_max_tokens_cost [of 200 "rev h"] by (simp add: w token_counter_rev)
  have longest: "suffix v ?w" if "suffix v h" "token_counter v \<le> 200" for v
  proof -
    have "prefix (rev v) (rev h)" using that(1) by (simp add: suffix_to_prefix)
    moreover have "token_counter (rev v) \<le> 200" using that(2) by (simp add: token_counter_rev)
    ultimately have "prefix (rev v) (first_max_tokens 200 token_counter (rev h))"
      by (rule first_max_tokens_longest)
    then show ?thesis by (simp add: w suffix_to_prefix)
  qed
  have empty: "?w = []" if "h \<noteq> []" "token_counter [last h] > 200"
  proof (rule ccontr)
    assume "?w \<noteq> []"
    then obtain u where u: "?w = butlast ?w @ [u]" by (metis append_butlast_last_id)
    obtain z where z: "h = z @ ?w" using suf by (auto simp: suffix_def)
    have "last h = u" using u z that(1) by (metis last_appendR last_snoc \<open>?w \<noteq> []\<close>)
    then have "token_counter ?w = token_counter (butlast ?w) + token_counter [last h]"
      using u token_counter_append [of "butlast ?w" "[u]"] by simp
    then show False using cost that(2) by simp
  qed
  show ?thesis
    using tr suf cost longest empty by blast
qed

theorem trimmed_window_witness:
  "conversation [HumanMessage (replicate 804 97), AIMessage (ascii ''ok''), HumanMessage (ascii ''hi'')]
   \<and> (\<exists>window.
        trimmer [HumanMessage (replicate 804 97), AIMessage (ascii ''ok''), HumanMessage (ascii ''hi'')]
          = Inr window
        \<and> token_counter window \<le> 200
        \<and> suffix [AIMessage (ascii ''ok''), HumanMessage (ascii ''hi'')] window)
   \<and> conversation [HumanMessage (replicate 804 97)]
   \<and> 200 < token_counter [last [HumanMessage (replicate 804 97)]]
   \<and> trimmer [HumanMessage (replicate 804 97)] = Inr []"
proof -
  let ?h = "[HumanMessage (replicate 804 97), AIMessage (ascii ''ok''), HumanMessage (ascii ''hi'')]"
  let ?v = "[AIMessage (ascii ''ok''), HumanMessage (ascii ''hi'')]"
  let ?g = "[HumanMessage (replicate 804 97)]"
  have c: "conversation ?h" by (simp add: conversation_def)
  have s: "suffix ?v ?h" by (simp add: suffix_def)
  have t: "token_counter ?v \<le> 200" by (simp add: token_counter_def ascii_def)
  have d: "conversation ?g" by (simp add: conversation_def)
  have b: "200 < token_counter [last ?g]" by (simp add: big_turn_cost)
  have n: "?g \<noteq> []" by simp
  have "\<exists>window. trimmer ?h = Inr window \<and> token_counter window \<le> 200 \<and> suffix ?v window"
    using s t trimmed_window [OF c] by blast
  moreover have "trimmer ?g = Inr []"
    using b n trimmed_window [OF d] by blast
  ultimately show ?thesis using c d b by blast
qed

text \<open>
  Claim C8: the trimming policy is idempotent: for every budget and every input, trimming
  the window that trimming has produced, with the same budget, gives that window again
  (and an input that is refused is refused with the same error).
\<close>

theorem trim_messages_idempotent:
  "(case trim_messages max_tokens token_counter include_system msgs of
      Inl e \<Rightarrow> Inl e
    | Inr window \<Rightarrow> trim_messages max_tokens token_counter include_system window)
   = trim_messages max_tokens token_counter include_system msgs"
proof (cases "convert_to_messages msgs")
  case (Inl e)
  then show ?thesis by (simp add: trim_messages_def)
next
  case (Inr converted)
  let ?w = "last_max_tokens max_tokens token_counter include_system msgs"
  have conv: "converted = msgs" and all: "\<forall>m\<in>set msgs. content m \<noteq> None"
    using convert_to_messages_Inr [OF Inr] by simp_all
  have first: "trim_messages max_tokens token_counter include_system msgs = Inr ?w"
    using all by (rule trim_messages_messages)
  have "\<forall>m\<in>set ?w. content m \<noteq> None"
    using all last_max_tokens_subset [of max_tokens token_counter include_system msgs] by blast
  then have "trim_messages max_tokens token_counter include_system ?w
             = Inr (last_max_tokens max_tokens token_counter include_system ?w)"
    by (rule trim_messages_messages)
  then have "trim_messages max_tokens token_counter include_system ?w = Inr ?w"
    by (simp add: last_max_tokens_idem)
  then show ?thesis by (simp add: first)
qed

text \<open>
  Claim C10 as the spec states it: a history that consists solely of Turns with fewer
  than four characters and of elements without a \<open>content\<close> attribute costs nothing and
  is retained in full, for every budget. A history of one element without \<open>content\<close>
  costs nothing, and the trimming policy does not retain it: it refuses it with an error.
\<close>

theorem contentless_history_refused:
  "content (OtherObject (ascii ''Unsupported message type'')) = None
   \<and> token_counter [OtherObject (ascii ''Unsupported message type'')] = 0
   \<and> trim_messages 200 token_counter True [OtherObject (ascii ''Unsupported message type'')]
       = Inl (Exception (ascii ''Unsupported message type''))
   \<and> trim_messages 200 token_counter True [OtherObject (ascii ''Unsupported message type'')]
       \<noteq> Inr [OtherObject (ascii ''Unsupported message type'')]"
  by (simp add: trim_messages_def token_counter_def)

text \<open>
  Claim C10, amended: the token counter charges nothing for a message whose content is
  shorter than four characters, and nothing for an element without a \<open>content\<close>
  attribute, so a list of such elements only has total cost zero; for every budget, a
  history that consists solely of messages whose content is shorter than four characters
  is retained in full by the trimming policy.
\<close>

theorem short_history_retained:
  "(content m = None \<longrightarrow> token_counter [m] = 0)
   \<and> (content m = Some c \<and> length c < 4 \<longrightarrow> token_counter [m] = 0)
   \<and> ((\<forall>m\<in>set es. case content m of None \<Rightarrow> True | Some c \<Rightarrow> length c < 4)
        \<longrightarrow> token_counter es = 0)
   \<and> ((\<forall>m\<in>set h. \<exists>c. content m = Some c \<and> length c < 4)
        \<longrightarrow> token_counter h = 0 \<and> trim_messages budget token_counter True h = Inr h)"
proof -
  have "token_counter h = 0 \<and> trim_messages budget token_counter True h = Inr h"
    if short: "\<forall>m\<in>set h. \<exists>c. content m = Some c \<and> length c < 4"
  proof -
    have "\<forall>m\<in>set h. case content m of None \<Rightarrow> True | Some c \<Rightarrow> length c < 4"
      using short by auto
    then have zero: "token_counter h = 0" by (rule token_counter_zero_cost)
    have "\<forall>m\<in>set h. content m \<noteq> None" using short by auto
    then have "trim_messages budget token_counter True h
               = Inr (last_max_tokens budget token_counter True h)"
      by (rule trim_messages_messages)
    then show ?thesis using zero by (simp add: last_max_tokens_fits)
  qed
  then show ?thesis
    using token_counter_zero_cost [of es] by (auto simp: token_counter_single)
qed

theorem short_history_retained_witness:
  "content (OtherObject (ascii ''int'')) = None \<and> token_counter [OtherObject (ascii ''int'')] = 0
   \<and> content (HumanMessage (ascii ''hi'')) = Some (ascii ''hi'') \<and> length (ascii ''hi'') < 4
   \<and> token_counter [HumanMessage (ascii ''hi'')] = 0
   \<and> content (AIMessage (ascii ''ok'')) = Some (ascii ''ok'') \<and> length (ascii ''ok'') < 4
   \<and> token_counter [HumanMessage (ascii ''hi''), OtherObject (ascii ''int''), AIMessage (ascii ''ok'')] = 0
   \<and> token_counter [HumanMessage (ascii ''hi''), AIMessage (ascii ''ok'')] = 0
   \<and> trim_messages 0 token_counter True [HumanMessage (ascii ''hi''), AIMessage (ascii ''ok'')]
       = Inr [HumanMessage (ascii ''hi''), AIMessage (ascii ''ok'')]"
proof -
  let ?es = "[HumanMessage (ascii ''hi''), OtherObject (ascii ''int''), AIMessage (ascii ''ok'')]"
  let ?h = "[HumanMessage (ascii ''hi''), AIMessage (ascii ''ok'')]"
  have cheap: "\<forall>m\<in>set ?es. case content m of None \<Rightarrow> True | Some c \<Rightarrow> length c < 4"
    by (simp add: ascii_def)
  have short: "\<forall>m\<in>set ?h. \<exists>c. content m = Some c \<and> length c < 4"
    by (simp add: ascii_def)
  have len: "length (ascii ''hi'') < 4" by (simp add: ascii_def)
  have "token_counter [OtherObject (ascii ''int'')] = 0"
    using short_history_retained [of "OtherObject (ascii ''int'')" "[]" "[]" "[]" 0] by simp
  moreover have "token_counter [HumanMessage (ascii ''hi'')] = 0"
    using len short_history_retained [of "HumanMessage (ascii ''hi'')" "ascii ''hi''" "[]" "[]" 0]
    by simp
  moreover have "token_counter ?es = 0"
    using cheap short_history_retained [of "OtherObject (ascii ''int'')" "[]" ?es "[]" 0] by blast
  moreover have "token_counter ?h = 0 \<and> trim_messages 0 token_counter True ?h = Inr ?h"
    using short short_history_retained [of "OtherObject (ascii ''int'')" "[]" "[]" ?h 0] by blast
  ultimately show ?thesis using len by (simp add: ascii_def)
qed

end
